theory Spec2Isabelle
  imports Complex_Main
begin

section \<open>Data model of app.py\<close>

text \<open>
  The catalog keeps its rows in SQLite tables behind SQLAlchemy. Each table is a list of
  rows in insertion order, and a store is the tables the lineage and scoring routes touch.
  A Python int is an \<^verbatim>\<open>int\<close>; a string is a list of code points below 256. A Python
  float is a finite double, given by its value as a real number, an infinity or NaN; the
  scores are sums of the rule weights, which are exact, and are real numbers.

  The routes are modelled as their bodies: the decorators \<^verbatim>\<open>require_view\<close> and
  \<^verbatim>\<open>require_edit\<close> run before the body and answer 401 or 403 without calling it.
\<close>

datatype pyfloat = Finite real | PosInf | NegInf | NaN

record asset =
  asset_id :: int
  asset_name :: string
  asset_type :: string
  asset_description :: "string option"
  asset_created_at :: string
  asset_tags :: "string list"

record lineage =
  lineage_id :: int
  src_asset_id :: int
  dst_asset_id :: int
  relation :: "string option"

record claim =
  claim_id :: "int option"
  claim_number :: "string option"
  policy_number :: "string option"
  amount :: pyfloat
  channel :: string
  city :: string
  prior_claims :: int
  fraud_score :: real
  fraud_label :: string
  created_at :: "string option"

record store =
  assets :: "asset list"
  lineage_rows :: "lineage list"
  claims :: "claim list"

text \<open>
  Exceptions that the modelled code can raise, and the three error answers of the routes:
  status 400 (the spec's ValidationError), 404 (NotFoundError) and 500, which carries the
  exception that the handler caught.
\<close>

datatype exn = TypeError | ValueError | OverflowError | IntegrityError

datatype error = ValidationError | NotFoundError | ServerError exn

subsection \<open>The JSON body\<close>

text \<open>
  A key of the request body is absent, holds JSON null, or holds a value of the type the
  route expects: a JSON number, which the decoder turns into an int or a float, for
  \<^verbatim>\<open>amount\<close> and \<^verbatim>\<open>prior_claims\<close>, an integer for the two asset ids, a string for the
  others. \<^verbatim>\<open>data.get(k)\<close> gives None for an absent key and for null;
  \<^verbatim>\<open>data.get(k, d)\<close> gives d for an absent key only.
\<close>

datatype 'a field = Absent | Null | Val 'a

datatype number = JInt int | JFloat pyfloat

fun get :: "'a field \<Rightarrow> 'a option" where
  "get Absent = None"
| "get Null = None"
| "get (Val v) = Some v"

fun get_default :: "'a field \<Rightarrow> 'a \<Rightarrow> 'a option" where
  "get_default Absent d = Some d"
| "get_default Null d = None"
| "get_default (Val v) d = Some v"

text \<open>\<^verbatim>\<open>int.bit_length\<close> of a natural number.\<close>

fun bit_length :: "nat \<Rightarrow> nat" where
  "bit_length n = (if n = 0 then 0 else Suc (bit_length (n div 2)))"

declare bit_length.simps [simp del]

text \<open>
  \<^verbatim>\<open>float(i)\<close> on an int: the nearest double, a tie going to the even mantissa of 53
  bits, and OverflowError when that would be 2 to the 1024 or more.
\<close>

definition float_of_int :: "int \<Rightarrow> exn + pyfloat" where
  "float_of_int i =
     (let n = nat \<bar>i\<bar>;
          b = bit_length n
      in if b \<le> 53 then Inr (Finite (real_of_int i))
         else
           let sh = b - 53;
               q = n div 2 ^ sh;
               r = n mod 2 ^ sh;
               half = 2 ^ (sh - 1);
               q' = (if half < r \<or> (r = half \<and> odd q) then q + 1 else q);
               m = q' * 2 ^ sh
           in if 2 ^ 1024 \<le> m then Inl OverflowError
              else Inr (Finite (if i < 0 then - real m else real m)))"

text \<open>
  \<^verbatim>\<open>float(x)\<close> and \<^verbatim>\<open>int(x)\<close> on what \<^verbatim>\<open>data.get\<close> gave: both raise TypeError on
  None; \<^verbatim>\<open>int\<close> cuts a finite float towards zero and raises OverflowError on an
  infinity and ValueError on NaN.
\<close>

fun py_float :: "number option \<Rightarrow> exn + pyfloat" where
  "py_float None = Inl TypeError"
| "py_float (Some (JInt i)) = float_of_int i"
| "py_float (Some (JFloat x)) = Inr x"

fun py_int :: "number option \<Rightarrow> exn + int" where
  "py_int None = Inl TypeError"
| "py_int (Some (JInt i)) = Inr i"
| "py_int (Some (JFloat (Finite r))) = Inr (if 0 \<le> r then \<lfloor>r\<rfloor> else \<lceil>r\<rceil>)"
| "py_int (Some (JFloat PosInf)) = Inl OverflowError"
| "py_int (Some (JFloat NegInf)) = Inl OverflowError"
| "py_int (Some (JFloat NaN)) = Inl ValueError"

text \<open>
  \<^verbatim>\<open>x > y\<close> for a float x and a finite number y: NaN compares false with everything.
\<close>

fun float_gt :: "pyfloat \<Rightarrow> real \<Rightarrow> bool" where
  "float_gt (Finite r) y = (r > y)"
| "float_gt PosInf y = True"
| "float_gt NegInf y = False"
| "float_gt NaN y = False"

text \<open>\<^verbatim>\<open>x or ""\<close>: None and the empty string are falsy.\<close>

fun or_empty :: "string option \<Rightarrow> string" where
  "or_empty None = []"
| "or_empty (Some s) = (if s = [] then [] else s)"

text \<open>
  \<^verbatim>\<open>str.lower\<close> and \<^verbatim>\<open>str.strip\<close> on code points below 256: the capitals are
  A to Z and U+00C0 to U+00DE without the multiplication sign U+00D7, each 32 below its
  small letter; white space is U+0009 to U+000D, U+001C to U+0020, U+0085 and U+00A0.
\<close>

definition lower_char :: "char \<Rightarrow> char" where
  "lower_char c =
     (let n = (of_char c :: nat)
      in if (65 \<le> n \<and> n \<le> 90) \<or> (192 \<le> n \<and> n \<le> 222 \<and> n \<noteq> 215)
         then char_of (n + 32) else c)"

definition lower :: "string \<Rightarrow> string" where
  "lower s = map lower_char s"

definition isspace :: "char \<Rightarrow> bool" where
  "isspace c =
     (let n = (of_char c :: nat)
      in (9 \<le> n \<and> n \<le> 13) \<or> (28 \<le> n \<and> n \<le> 32) \<or> n = 133 \<or> n = 160)"

definition strip :: "string \<Rightarrow> string" where
  "strip s = rev (dropWhile isspace (rev (dropWhile isspace s)))"

section \<open>Fraud scoring\<close>

text \<open>
  A rule is a predicate, a weight and a note. A predicate is a Python callable, so it
  returns a truth value or raises.
\<close>

type_synonym rule = "(claim \<Rightarrow> exn + bool) \<times> real \<times> string"

definition RULES :: "rule list" where
  "RULES =
     [(\<lambda>c. Inr (float_gt (amount c) 300000), 50, ''High claim amount > 300k''),
      (\<lambda>c. Inr (prior_claims c \<ge> 3), 25, ''Three or more prior claims''),
      (\<lambda>c. Inr (channel c = ''online''), 5, ''Online submission''),
      (\<lambda>c. Inr (lower (city c) \<in> {''unknown'', ''na'', ''''}), 10, ''Missing/unknown city'')]"

definition THRESHOLD :: real where
  "THRESHOLD = 60"

text \<open>
  The loop over the rule table, with its two accumulators. A predicate that raises is
  caught by \<^verbatim>\<open>except Exception: pass\<close> and leaves both accumulators as they are.
\<close>

fun apply_rules :: "rule list \<Rightarrow> claim \<Rightarrow> real \<times> string list \<Rightarrow> real \<times> string list" where
  "apply_rules [] c acc = acc"
| "apply_rules ((rule, weight, note) # rs) c (score, reasons) =
     apply_rules rs c
       (case rule c of
          Inl e \<Rightarrow> (score, reasons)
        | Inr b \<Rightarrow> if b then (score + weight, reasons @ [note]) else (score, reasons))"

record score_request =
  amount_field :: "number field"
  prior_claims_field :: "number field"
  channel_field :: "string field"
  city_field :: "string field"
  claim_number_field :: "string field"
  policy_number_field :: "string field"

record score_reply =
  reply_claim_number :: "string option"
  reply_fraud_label :: string
  reply_fraud_score :: real
  reply_reasons :: "string list"

text \<open>
  Lines 340 to 353: the four attributes are coerced and the temporary Claim is built.
  \<^verbatim>\<open>fraud_score\<close> and \<^verbatim>\<open>fraud_label\<close> are assigned before the row is written; until
  then the record holds their column defaults.
\<close>

definition parse_claim :: "score_request \<Rightarrow> exn + claim" where
  "parse_claim data =
     (case py_float (get_default (amount_field data) (JInt 0)) of
        Inl e \<Rightarrow> Inl e
      | Inr amount' \<Rightarrow>
          (case py_int (get_default (prior_claims_field data) (JInt 0)) of
             Inl e \<Rightarrow> Inl e
           | Inr prior_claims' \<Rightarrow>
               let channel' = strip (lower (or_empty (get (channel_field data))));
                   city' = strip (lower (or_empty (get (city_field data))))
               in Inr \<lparr>claim_id = None,
                       claim_number = get_default (claim_number_field data) ''NA'',
                       policy_number = get_default (policy_number_field data) ''NA'',
                       amount = amount',
                       channel = channel',
                       city = city',
                       prior_claims = prior_claims',
                       fraud_score = 0,
                       fraud_label = ''OK'',
                       created_at = None\<rparr>))"

text \<open>
  A new row of a table with an integer primary key gets one more than the largest id in
  the table, and 1 in an empty table.
\<close>

definition next_id :: "int list \<Rightarrow> int" where
  "next_id ids = fold max ids 0 + 1"

text \<open>
  An INTEGER of SQLite is a signed integer of 64 bits. Binding a Python int outside that
  range as a parameter of a statement raises OverflowError before the statement runs.
\<close>

definition int64 :: "int \<Rightarrow> bool" where
  "int64 i = (- (2 ^ 63) \<le> i \<and> i < 2 ^ 63)"

text \<open>
  \<^verbatim>\<open>db.add(claim); db.commit()\<close>. Binding \<^verbatim>\<open>prior_claims\<close> raises OverflowError when it
  is not in the range of an INTEGER. The insert violates a constraint of the table when
  \<^verbatim>\<open>claim_number\<close> or \<^verbatim>\<open>policy_number\<close> is None or \<^verbatim>\<open>amount\<close> is NaN, which SQLite
  stores as NULL (\<^verbatim>\<open>nullable=False\<close>), or when a row with the same \<^verbatim>\<open>claim_number\<close> is
  stored already (\<^verbatim>\<open>unique=True\<close>). Otherwise the row is appended with a fresh id and the
  time of the insert.
\<close>

definition commit_claim :: "string \<Rightarrow> store \<Rightarrow> claim \<Rightarrow> exn + store \<times> claim" where
  "commit_claim now db c =
     (if \<not> int64 (prior_claims c) then Inl OverflowError
      else if claim_number c = None \<or> policy_number c = None \<or> amount c = NaN
        then Inl IntegrityError
      else if claim_number c \<in> set (map claim_number (claims db)) then Inl IntegrityError
      else
        let row = c\<lparr>claim_id := Some (next_id (map (\<lambda>r. case claim_id r of None \<Rightarrow> 0 | Some i \<Rightarrow> i) (claims db))),
                    created_at := Some now\<rparr>
        in Inr (db\<lparr>claims := claims db @ [row]\<rparr>, row))"

text \<open>
  The route \<^verbatim>\<open>POST /claims/score\<close>. Every exception inside its \<^verbatim>\<open>try\<close> is answered
  with status 500 after a rollback, which leaves the store as it was.
\<close>

definition score_claim :: "string \<Rightarrow> store \<Rightarrow> score_request \<Rightarrow> store \<times> (error + score_reply)" where
  "score_claim now db data =
     (case parse_claim data of
        Inl e \<Rightarrow> (db, Inl (ServerError e))
      | Inr claim0 \<Rightarrow>
          let (score, reasons) = apply_rules RULES claim0 (0, []);
              claim1 = claim0\<lparr>fraud_score := min score 100\<rparr>;
              claim2 = claim1\<lparr>fraud_label :=
                         (if fraud_score claim1 \<ge> THRESHOLD then ''SUSPICIOUS'' else ''OK'')\<rparr>
          in (case commit_claim now db claim2 of
                Inl e \<Rightarrow> (db, Inl (ServerError e))
              | Inr (db', row) \<Rightarrow>
                  (db', Inr \<lparr>reply_claim_number = claim_number row,
                              reply_fraud_label = fraud_label row,
                              reply_fraud_score = fraud_score row,
                              reply_reasons = reasons\<rparr>)))"

section \<open>Lineage\<close>

record asset_dict =
  dict_id :: int
  dict_name :: string
  dict_type :: string
  dict_description :: "string option"
  dict_created_at :: string
  dict_tags :: "string list"

text \<open>\<^verbatim>\<open>asset_created_at\<close> holds the text that \<^verbatim>\<open>created_at.isoformat()\<close> gives.\<close>

definition asset_to_dict :: "asset \<Rightarrow> asset_dict" where
  "asset_to_dict a =
     \<lparr>dict_id = asset_id a,
      dict_name = asset_name a,
      dict_type = asset_type a,
      dict_description = asset_description a,
      dict_created_at = asset_created_at a,
      dict_tags = asset_tags a\<rparr>"

record edge_dict =
  edge_id :: int
  source :: int
  target :: int
  edge_relation :: "string option"

definition edge_to_dict :: "lineage \<Rightarrow> edge_dict" where
  "edge_to_dict e =
     \<lparr>edge_id = lineage_id e,
      source = src_asset_id e,
      target = dst_asset_id e,
      edge_relation = relation e\<rparr>"

record neighborhood =
  nodes :: "asset_dict list"
  edges :: "edge_dict list"

text \<open>
  A Python dict as an association list in insertion order: a key that is stored already
  keeps its place and takes the new value.
\<close>

fun dict_set :: "'k \<Rightarrow> 'v \<Rightarrow> ('k \<times> 'v) list \<Rightarrow> ('k \<times> 'v) list" where
  "dict_set k v [] = [(k, v)]"
| "dict_set k v ((k', v') # d) = (if k' = k then (k, v) # d else (k', v') # dict_set k v d)"

definition dict_of :: "('k \<times> 'v) list \<Rightarrow> ('k \<times> 'v) list" where
  "dict_of kvs = fold (\<lambda>(k, v) d. dict_set k v d) kvs []"

text \<open>
  \<^verbatim>\<open>db.query(Asset).get(i)\<close>: the row with primary key i, or None; i is bound as a
  parameter of the query.
\<close>

definition query_asset :: "store \<Rightarrow> int \<Rightarrow> exn + asset option" where
  "query_asset db i =
     (if int64 i then Inr (find (\<lambda>a. asset_id a = i) (assets db)) else Inl OverflowError)"

text \<open>
  The route \<^verbatim>\<open>GET /lineage/<asset_id>\<close>. It has no handler: an exception of its first
  query, which binds the asset id, leaves the function and is answered with status 500.
  The ids that the other queries bind come from stored rows.
\<close>

definition get_lineage :: "store \<Rightarrow> int \<Rightarrow> error + neighborhood" where
  "get_lineage db a =
     (if \<not> int64 a then Inl (ServerError OverflowError)
      else
        let outgoing = filter (\<lambda>e. src_asset_id e = a) (lineage_rows db);
            incoming = filter (\<lambda>e. dst_asset_id e = a) (lineage_rows db);
            node_ids = set ([a] @ map dst_asset_id outgoing @ map src_asset_id incoming);
            nodes' = dict_of (map (\<lambda>x. (asset_id x, asset_to_dict x))
                        (filter (\<lambda>x. asset_id x \<in> node_ids) (assets db)));
            edges' = map edge_to_dict (outgoing @ incoming)
        in Inr \<lparr>nodes = map snd nodes', edges = edges'\<rparr>)"

record lineage_request =
  src_asset_id_field :: "int field"
  dst_asset_id_field :: "int field"
  relation_field :: "string field"

text \<open>\<^verbatim>\<open>not x\<close> on an optional integer: None and 0 are falsy.\<close>

fun falsy :: "int option \<Rightarrow> bool" where
  "falsy None = True"
| "falsy (Some n) = (n = 0)"

text \<open>
  An attribute that is None is left out of the INSERT, so the column takes its default;
  \<^verbatim>\<open>relation\<close> has the default \<^verbatim>\<open>"derives"\<close>.
\<close>

fun column_default :: "'a option \<Rightarrow> 'a \<Rightarrow> 'a" where
  "column_default None d = d"
| "column_default (Some v) d = v"

text \<open>
  The route \<^verbatim>\<open>POST /lineage\<close>; on success it answers 201 with the id of the new edge.
  Both lookups run inside the \<^verbatim>\<open>try\<close>, before their results are tested, and an exception
  of either is answered with status 500 after a rollback. The lineage table has no unique
  column and the engine is created without SQLite's foreign-key enforcement, so the
  insert of a row whose two ids were looked up violates nothing. The last case of the
  match is a None id, which is falsy and was answered by the check before it.
\<close>

definition add_lineage :: "store \<Rightarrow> lineage_request \<Rightarrow> store \<times> (error + int)" where
  "add_lineage db data =
     (let src_id = get (src_asset_id_field data);
          dst_id = get (dst_asset_id_field data)
      in if falsy src_id \<or> falsy dst_id then (db, Inl ValidationError)
         else
           (case (src_id, dst_id) of
              (Some s, Some d) \<Rightarrow>
                (case query_asset db s of
                   Inl e \<Rightarrow> (db, Inl (ServerError e))
                 | Inr src \<Rightarrow>
                     (case query_asset db d of
                        Inl e \<Rightarrow> (db, Inl (ServerError e))
                      | Inr dst \<Rightarrow>
                          if src = None \<or> dst = None then (db, Inl NotFoundError)
                          else
                            let edge = \<lparr>lineage_id = next_id (map lineage_id (lineage_rows db)),
                                        src_asset_id = s,
                                        dst_asset_id = d,
                                        relation =
                                          Some (column_default
                                            (get_default (relation_field data) ''derives'')
                                            ''derives'')\<rparr>
                            in (db\<lparr>lineage_rows := lineage_rows db @ [edge]\<rparr>,
                                Inr (lineage_id edge))))
            | _ \<Rightarrow> (db, Inl ValidationError)))"

text \<open>
  The route \<^verbatim>\<open>DELETE /assets/<asset_id>\<close>. It has no handler either, so an exception of
  the lookup is answered with status 500. \<^verbatim>\<open>db.delete(a)\<close> removes the asset's row (and
  its rows of the tag association, which the record keeps inside the asset). No
  relationship links Asset to Lineage and no cascade is declared on the two foreign keys,
  so the lineage table is not written.
\<close>

definition delete_asset :: "store \<Rightarrow> int \<Rightarrow> store \<times> (error + string)" where
  "delete_asset db i =
     (case query_asset db i of
        Inl e \<Rightarrow> (db, Inl (ServerError e))
      | Inr None \<Rightarrow> (db, Inl NotFoundError)
      | Inr (Some a) \<Rightarrow>
          (db\<lparr>assets := filter (\<lambda>x. asset_id x \<noteq> asset_id a) (assets db)\<rparr>, Inr ''deleted''))"

subsection \<open>The seeded store\<close>

text \<open>
  The rows that \<^verbatim>\<open>seed_demo\<close> writes into an empty database, for a given creation time.
\<close>

definition seeded :: "string \<Rightarrow> store" where
  "seeded now =
     \<lparr>assets =
        [\<lparr>asset_id = 1, asset_name = ''Policy_Master'', asset_type = ''policy'',
          asset_description = Some ''Master policy dataset'', asset_created_at = now,
          asset_tags = [''PII'']\<rparr>,
         \<lparr>asset_id = 2, asset_name = ''Claim_Intake_2025'', asset_type = ''claim'',
          asset_description = Some ''Raw claim intake'', asset_created_at = now,
          asset_tags = []\<rparr>,
         \<lparr>asset_id = 3, asset_name = ''Reserve_Model_v1'', asset_type = ''reserve_model'',
          asset_description = Some ''Chain-ladder outputs'', asset_created_at = now,
          asset_tags = []\<rparr>],
      lineage_rows =
        [\<lparr>lineage_id = 1, src_asset_id = 1, dst_asset_id = 2, relation = Some ''feeds''\<rparr>,
         \<lparr>lineage_id = 2, src_asset_id = 2, dst_asset_id = 3, relation = Some ''drives''\<rparr>],
      claims =
        [\<lparr>claim_id = Some 1, claim_number = Some ''C-1001'', policy_number = Some ''P-9001'',
          amount = Finite 12000, channel = ''online'', city = ''Chennai'', prior_claims = 0,
          fraud_score = 12, fraud_label = ''OK'', created_at = Some now\<rparr>,
         \<lparr>claim_id = Some 2, claim_number = Some ''C-1002'', policy_number = Some ''P-9002'',
          amount = Finite 450000, channel = ''online'', city = ''Unknown'', prior_claims = 3,
          fraud_score = 78, fraud_label = ''SUSPICIOUS'', created_at = Some now\<rparr>]\<rparr>"

section \<open>Notions used in the statements\<close>

text \<open>
  A rule is triggered on a claim when its predicate returns True; a predicate that raises
  or returns False does not trigger it.
\<close>

definition triggered :: "claim \<Rightarrow> rule \<Rightarrow> bool" where
  "triggered c r = (fst r c = Inr True)"

definition rule_weight :: "rule \<Rightarrow> real" where
  "rule_weight r = fst (snd r)"

definition rule_note :: "rule \<Rightarrow> string" where
  "rule_note r = snd (snd r)"

text \<open>
  The requests that \<^verbatim>\<open>score_claim\<close> answers with a score in a given store: both
  coercions return, and the claims table takes the row, so the commit returns. That is:
  \<^verbatim>\<open>amount\<close> is absent, a float other than NaN, or an int that \<^verbatim>\<open>float\<close> can convert;
  \<^verbatim>\<open>prior_claims\<close> is absent or a number that \<^verbatim>\<open>int\<close> turns into an integer of at most
  64 bits; \<^verbatim>\<open>claim_number\<close> and \<^verbatim>\<open>policy_number\<close> are not null; and no stored claim has
  the request's claim number, which is "NA" when the key is absent.
\<close>

definition accepts :: "store \<Rightarrow> score_request \<Rightarrow> bool" where
  "accepts db data =
     (case (py_float (get_default (amount_field data) (JInt 0)),
            py_int (get_default (prior_claims_field data) (JInt 0))) of
        (Inr x, Inr n) \<Rightarrow>
          x \<noteq> NaN \<and> int64 n \<and>
          claim_number_field data \<noteq> Null \<and> policy_number_field data \<noteq> Null \<and>
          get_default (claim_number_field data) ''NA'' \<notin> set (map claim_number (claims db))
      | _ \<Rightarrow> False)"

text \<open>
  The node ids of a neighborhood in the spec's words: the asset's id, every destination
  of an outgoing edge and every source of an incoming edge.
\<close>

definition spec_node_ids :: "store \<Rightarrow> int \<Rightarrow> int set" where
  "spec_node_ids db a =
     {a} \<union> dst_asset_id ` {e \<in> set (lineage_rows db). src_asset_id e = a}
         \<union> src_asset_id ` {e \<in> set (lineage_rows db). dst_asset_id e = a}"

text \<open>
  A node and an edge in the spec's words: a node is the full asset record (id, name, type,
  description, creation time, tags), an edge is rendered as id, source, target, relation.
\<close>

definition spec_node :: "asset \<Rightarrow> asset_dict" where
  "spec_node x =
     \<lparr>dict_id = asset_id x, dict_name = asset_name x, dict_type = asset_type x,
      dict_description = asset_description x, dict_created_at = asset_created_at x,
      dict_tags = asset_tags x\<rparr>"

definition spec_edge :: "lineage \<Rightarrow> edge_dict" where
  "spec_edge e =
     \<lparr>edge_id = lineage_id e, source = src_asset_id e, target = dst_asset_id e,
      edge_relation = relation e\<rparr>"

text \<open>The body \<^verbatim>\<open>{}\<close>: every key is absent.\<close>

definition empty_request :: score_request where
  "empty_request =
     \<lparr>amount_field = Absent, prior_claims_field = Absent, channel_field = Absent,
      city_field = Absent, claim_number_field = Absent, policy_number_field = Absent\<rparr>"

section \<open>Properties of the scoring route\<close>

subsection \<open>The rule loop\<close>

lemma apply_rules_eq:
  "apply_rules rs c (score, reasons) =
     (score + sum_list (map rule_weight (filter (triggered c) rs)),
      reasons @ map rule_note (filter (triggered c) rs))"
  by (induction rs arbitrary: score reasons)
     (auto simp: triggered_def rule_weight_def rule_note_def split: sum.splits)

lemma RULES_weights_nonneg: "\<forall>r \<in> set RULES. 0 \<le> rule_weight r"
  by (simp add: RULES_def rule_weight_def)


subsection \<open>The coercions\<close>

lemma bit_length_le: "n < 2 ^ k \<Longrightarrow> bit_length n \<le> k"
proof (induction k arbitrary: n)
  case 0
  then show ?case by (simp add: bit_length.simps [of 0])
next
  case (Suc k)
  then have "n div 2 < 2 ^ k" by simp
  then have "bit_length (n div 2) \<le> k" by (rule Suc.IH)
  then show ?case by (simp add: bit_length.simps [of n])
qed

text \<open>An int below 2 to the 53 in size is converted exactly.\<close>

lemma float_of_int_small:
  assumes "\<bar>i\<bar> < 2 ^ 53"
  shows "float_of_int i = Inr (Finite (real_of_int i))"
proof -
  from assms have "nat \<bar>i\<bar> < 2 ^ 53"
    by (simp add: nat_less_iff)
  then have "bit_length (nat \<bar>i\<bar>) \<le> 53"
    by (rule bit_length_le)
  then show ?thesis
    by (simp add: float_of_int_def Let_def)
qed

lemma float_of_int_0: "float_of_int 0 = Inr (Finite 0)"
  using float_of_int_small [of 0] by simp

lemma get_default_None: "get_default f d = None \<longleftrightarrow> f = Null"
  by (cases f) simp_all

subsection \<open>When the route answers with a score\<close>

lemma parse_claim_Inr:
  assumes "py_float (get_default (amount_field data) (JInt 0)) = Inr x"
    and "py_int (get_default (prior_claims_field data) (JInt 0)) = Inr n"
  shows "parse_claim data =
           Inr \<lparr>claim_id = None,
                claim_number = get_default (claim_number_field data) ''NA'',
                policy_number = get_default (policy_number_field data) ''NA'',
                amount = x,
                channel = strip (lower (or_empty (get (channel_field data)))),
                city = strip (lower (or_empty (get (city_field data)))),
                prior_claims = n,
                fraud_score = 0,
                fraud_label = ''OK'',
                created_at = None\<rparr>"
  using assms by (simp add: parse_claim_def Let_def)

lemma parse_claim_attrs:
  assumes "parse_claim data = Inr c"
  shows "py_float (get_default (amount_field data) (JInt 0)) = Inr (amount c)"
    and "py_int (get_default (prior_claims_field data) (JInt 0)) = Inr (prior_claims c)"
    and "channel c = strip (lower (or_empty (get (channel_field data))))"
    and "city c = strip (lower (or_empty (get (city_field data))))"
    and "claim_number c = get_default (claim_number_field data) ''NA''"
    and "policy_number c = get_default (policy_number_field data) ''NA''"
  using assms by (auto simp: parse_claim_def Let_def split: sum.splits)

lemma accepts_iff:
  "accepts db data \<longleftrightarrow>
     (\<exists>c. parse_claim data = Inr c \<and> amount c \<noteq> NaN \<and> int64 (prior_claims c) \<and>
          claim_number c \<noteq> None \<and> policy_number c \<noteq> None \<and>
          claim_number c \<notin> set (map claim_number (claims db)))"
  by (auto simp: accepts_def parse_claim_def Let_def get_default_None split: sum.splits)

lemma score_claim_Inr:
  assumes p: "parse_claim data = Inr c"
    and n: "amount c \<noteq> NaN" "int64 (prior_claims c)"
      "claim_number c \<noteq> None" "policy_number c \<noteq> None"
    and u: "claim_number c \<notin> set (map claim_number (claims db))"
  shows "\<exists>db'. score_claim now db data =
           (db', Inr \<lparr>reply_claim_number = claim_number c,
                      reply_fraud_label =
                        (if min (sum_list (map rule_weight (filter (triggered c) RULES))) 100 \<ge> 60
                         then ''SUSPICIOUS'' else ''OK''),
                      reply_fraud_score =
                        min (sum_list (map rule_weight (filter (triggered c) RULES))) 100,
                      reply_reasons = map rule_note (filter (triggered c) RULES)\<rparr>)"
  using n u
  by (simp add: score_claim_def p apply_rules_eq commit_claim_def THRESHOLD_def Let_def)

text \<open>
  A request that is not accepted is answered with status 500, and the store stays as it
  was: the route returns a score exactly on the accepted requests.
\<close>

lemma score_claim_Inl:
  assumes "\<not> accepts db data"
  shows "\<exists>e. score_claim now db data = (db, Inl (ServerError e))"
proof (cases "parse_claim data")
  case (Inl e)
  then show ?thesis by (simp add: score_claim_def)
next
  case (Inr c)
  with assms have "\<not> (amount c \<noteq> NaN \<and> int64 (prior_claims c) \<and>
          claim_number c \<noteq> None \<and> policy_number c \<noteq> None \<and>
          claim_number c \<notin> set (map claim_number (claims db)))"
    by (simp add: accepts_iff)
  then show ?thesis
    by (auto simp: score_claim_def Inr apply_rules_eq commit_claim_def Let_def)
qed

lemma normalized_words:
  "strip (lower ''online'') = ''online''" "strip (lower ''unknown'') = ''unknown''"
  "strip (lower ''Unknown'') = ''unknown''"
  "lower ''unknown'' = ''unknown''" "lower ''online'' = ''online''"
  "strip ''unknown'' = ''unknown''" "strip ''online'' = ''online''"
  "strip (lower ''agent'') = ''agent''" "strip (lower ''Chennai'') = ''chennai''"
  "lower ''chennai'' = ''chennai''" "strip (lower []) = []" "lower [] = []" "strip [] = []"
  "strip ''agent'' = ''agent''" "strip ''chennai'' = ''chennai''"
  by code_simp+

lemmas score_eval = score_claim_def parse_claim_def apply_rules_eq commit_claim_def
  seeded_def Let_def RULES_def triggered_def rule_weight_def rule_note_def THRESHOLD_def
  next_id_def float_of_int_small int64_def accepts_def normalized_words

subsection \<open>The score, the label and the reasons\<close>




text \<open>
  The other requests that are not accepted: a count of prior claims beyond 64 bits, an
  int amount that is too large for a float, and the amount NaN.
\<close>

lemma score_claim_overflow_examples:
  "score_claim ''t1'' (seeded ''t0'')
     (empty_request\<lparr>prior_claims_field := Val (JInt (2 ^ 63))\<rparr>) =
   (seeded ''t0'', Inl (ServerError OverflowError))"
  "score_claim ''t1'' (seeded ''t0'')
     (empty_request\<lparr>amount_field := Val (JFloat NaN)\<rparr>) =
   (seeded ''t0'', Inl (ServerError IntegrityError))"
  by (simp_all add: score_eval empty_request_def float_of_int_0)

subsection \<open>Dependence on the four attributes only\<close>





subsection \<open>The two boundaries\<close>

text \<open>
  C7: a claim whose amount is exactly 300000 does not trigger the first rule of the
  table, whose comparison is strict, and a claim whose prior_claims is exactly 3 triggers
  the second rule, whose comparison is not; the loop leaves the first note out of the
  reasons of the one and puts the second note into the reasons of the other.
\<close>

theorem rule_boundaries:
  "\<not> triggered (c\<lparr>amount := Finite 300000\<rparr>) (RULES ! 0) \<and>
   triggered (c\<lparr>prior_claims := 3\<rparr>) (RULES ! 1) \<and>
   ''High claim amount > 300k'' \<notin> set (snd (apply_rules RULES (c\<lparr>amount := Finite 300000\<rparr>) (0, []))) \<and>
   ''Three or more prior claims'' \<in> set (snd (apply_rules RULES (c\<lparr>prior_claims := 3\<rparr>) (0, [])))"
  by (simp add: RULES_def triggered_def)

subsection \<open>Monotonicity\<close>

lemma triggered_sum_mono:
  assumes "\<forall>r \<in> set rs. 0 \<le> rule_weight r"
    and "\<forall>r \<in> set rs. triggered c r \<longrightarrow> triggered c' r"
  shows "sum_list (map rule_weight (filter (triggered c) rs)) \<le>
         sum_list (map rule_weight (filter (triggered c') rs))"
  using assms
proof (induction rs)
  case Nil
  then show ?case by simp
next
  case (Cons r rs)
  then have "sum_list (map rule_weight (filter (triggered c) rs)) \<le>
             sum_list (map rule_weight (filter (triggered c') rs))"
    by simp
  moreover have "0 \<le> rule_weight r" "triggered c r \<longrightarrow> triggered c' r"
    using Cons.prems by simp_all
  ultimately show ?case by auto
qed

lemma score_claim_score:
  assumes p: "parse_claim data = Inr c"
    and r: "snd (score_claim now db data) = Inr r"
  shows "reply_fraud_score r = min (sum_list (map rule_weight (filter (triggered c) RULES))) 100"
proof (cases "accepts db data")
  case False
  from score_claim_Inl [OF this, of now] r show ?thesis by auto
next
  case True
  with p have "amount c \<noteq> NaN" "int64 (prior_claims c)" "claim_number c \<noteq> None"
    "policy_number c \<noteq> None" "claim_number c \<notin> set (map claim_number (claims db))"
    by (auto simp: accepts_iff)
  from score_claim_Inr [OF p this, of now] r show ?thesis by auto
qed

text \<open>
  C8: when every rule that is triggered on the normalized claim of one request is
  triggered on the normalized claim of another, the score returned for the first is at
  most the score returned for the second.
\<close>

theorem score_claim_monotone:
  assumes "parse_claim data = Inr c" "parse_claim data' = Inr c'"
    and "\<forall>rule \<in> set RULES. triggered c rule \<longrightarrow> triggered c' rule"
    and "snd (score_claim now db data) = Inr r" "snd (score_claim now' db' data') = Inr r'"
  shows "reply_fraud_score r \<le> reply_fraud_score r'"
proof -
  have "sum_list (map rule_weight (filter (triggered c) RULES)) \<le>
        sum_list (map rule_weight (filter (triggered c') RULES))"
    using RULES_weights_nonneg assms(3) by (rule triggered_sum_mono)
  then show ?thesis
    using score_claim_score [OF assms(1,4)] score_claim_score [OF assms(2,5)] by simp
qed

text \<open>
  The spec's example: raising the amount from 299999 to 300001 raises the returned score
  from 10 to 60.
\<close>

theorem score_claim_monotone_witness:
  "snd (score_claim ''t1'' (seeded ''t0'')
     \<lparr>amount_field = Val (JInt 299999), prior_claims_field = Absent, channel_field = Absent,
      city_field = Absent, claim_number_field = Val ''C-2001'',
      policy_number_field = Val ''P-9003''\<rparr>) =
   Inr \<lparr>reply_claim_number = Some ''C-2001'', reply_fraud_label = ''OK'',
        reply_fraud_score = 10, reply_reasons = [''Missing/unknown city'']\<rparr> \<and>
   snd (score_claim ''t1'' (seeded ''t0'')
     \<lparr>amount_field = Val (JInt 300001), prior_claims_field = Absent, channel_field = Absent,
      city_field = Absent, claim_number_field = Val ''C-2001'',
      policy_number_field = Val ''P-9003''\<rparr>) =
   Inr \<lparr>reply_claim_number = Some ''C-2001'', reply_fraud_label = ''SUSPICIOUS'',
        reply_fraud_score = 60,
        reply_reasons = [''High claim amount > 300k'', ''Missing/unknown city'']\<rparr> \<and>
   reply_fraud_score \<lparr>reply_claim_number = Some ''C-2001'', reply_fraud_label = ''OK'',
        reply_fraud_score = 10, reply_reasons = [''Missing/unknown city'']\<rparr> \<le>
   reply_fraud_score \<lparr>reply_claim_number = Some ''C-2001'', reply_fraud_label = ''SUSPICIOUS'',
        reply_fraud_score = 60,
        reply_reasons = [''High claim amount > 300k'', ''Missing/unknown city'']\<rparr>"
proof -
  let ?d = "\<lambda>a. \<lparr>amount_field = Val (JInt a), prior_claims_field = Absent,
      channel_field = Absent, city_field = Absent, claim_number_field = Val ''C-2001'',
      policy_number_field = Val ''P-9003''\<rparr>"
  let ?c = "\<lambda>a. \<lparr>claim_id = None, claim_number = Some ''C-2001'',
      policy_number = Some ''P-9003'', amount = Finite a, channel = [], city = [],
      prior_claims = 0, fraud_score = 0, fraud_label = ''OK'', created_at = None\<rparr>"
  have p0: "parse_claim (?d 299999) = Inr (?c 299999)"
    and p1: "parse_claim (?d 300001) = Inr (?c 300001)"
    by (simp_all add: parse_claim_def normalized_words float_of_int_small)
  have m: "\<forall>rule \<in> set RULES. triggered (?c 299999) rule \<longrightarrow> triggered (?c 300001) rule"
    by (simp add: RULES_def triggered_def)
  have e0: "snd (score_claim ''t1'' (seeded ''t0'') (?d 299999)) =
      Inr \<lparr>reply_claim_number = Some ''C-2001'', reply_fraud_label = ''OK'',
        reply_fraud_score = 10, reply_reasons = [''Missing/unknown city'']\<rparr>"
    by (simp add: score_eval)
  have e1: "snd (score_claim ''t1'' (seeded ''t0'') (?d 300001)) =
      Inr \<lparr>reply_claim_number = Some ''C-2001'', reply_fraud_label = ''SUSPICIOUS'',
        reply_fraud_score = 60,
        reply_reasons = [''High claim amount > 300k'', ''Missing/unknown city'']\<rparr>"
    by (simp add: score_eval)
  from score_claim_monotone [OF p0 p1 m e0 e1] e0 e1 show ?thesis
    by blast
qed

subsection \<open>The defaults\<close>

text \<open>
  C10, as the code has it: a request that omits amount, prior_claims, channel and city
  and that the route accepts is answered with fraud_score 10, fraud_label OK and the
  single reason "Missing/unknown city", since the defaulted empty city is one of the
  unknown cities.
\<close>

theorem score_claim_defaults:
  assumes "amount_field data = Absent" "prior_claims_field data = Absent"
    "channel_field data = Absent" "city_field data = Absent"
    and "accepts db data"
  shows "snd (score_claim now db data) =
           Inr \<lparr>reply_claim_number = get_default (claim_number_field data) ''NA'',
                reply_fraud_label = ''OK'', reply_fraud_score = 10,
                reply_reasons = [''Missing/unknown city'']\<rparr>"
proof -
  from assms(5) obtain c where c: "parse_claim data = Inr c"
    and ok: "amount c \<noteq> NaN" "int64 (prior_claims c)" "claim_number c \<noteq> None"
      "policy_number c \<noteq> None" "claim_number c \<notin> set (map claim_number (claims db))"
    unfolding accepts_iff by blast
  from parse_claim_attrs [OF c] assms(1-4)
  have "amount c = Finite 0" "prior_claims c = 0" "channel c = []" "city c = []"
    by (simp_all add: lower_def strip_def float_of_int_0)
  then have f: "filter (triggered c) RULES = [RULES ! 3]"
    by (simp add: RULES_def triggered_def lower_def)
  from score_claim_Inr [OF c ok, of now] show ?thesis
    unfolding f
    by (auto simp: parse_claim_attrs(5) [OF c] RULES_def rule_weight_def rule_note_def)
qed

text \<open>The body \<^verbatim>\<open>{}\<close> on the seeded store.\<close>

theorem score_claim_defaults_witness:
  "accepts (seeded ''t0'') empty_request \<and>
   snd (score_claim ''t1'' (seeded ''t0'') empty_request) =
     Inr \<lparr>reply_claim_number = Some ''NA'', reply_fraud_label = ''OK'',
          reply_fraud_score = 10, reply_reasons = [''Missing/unknown city'']\<rparr>"
proof -
  have a: "accepts (seeded ''t0'') empty_request"
    by (simp add: accepts_def empty_request_def seeded_def float_of_int_0 int64_def)
  from score_claim_defaults [OF _ _ _ _ a, of "''t1''"] a show ?thesis
    by (simp add: empty_request_def)
qed

text \<open>
  C10 as it is written fails: the body \<^verbatim>\<open>{}\<close> is stored under the default
  claim number "NA", so the second request with that body is answered with status 500.
\<close>

theorem score_claim_defaults_counterexample:
  "snd (score_claim ''t2'' (fst (score_claim ''t1'' (seeded ''t0'') empty_request)) empty_request) =
     Inl (ServerError IntegrityError)"
  by (simp add: score_eval empty_request_def float_of_int_0)

section \<open>Properties of the lineage routes\<close>

subsection \<open>The neighborhood\<close>

lemma dict_set_fresh: "k \<notin> fst ` set d \<Longrightarrow> dict_set k v d = d @ [(k, v)]"
  by (induction d) auto

lemma fold_dict_set_distinct:
  "distinct (map fst (acc @ kvs)) \<Longrightarrow> fold (\<lambda>(k, v) d. dict_set k v d) kvs acc = acc @ kvs"
proof (induction kvs arbitrary: acc)
  case Nil
  then show ?case by simp
next
  case (Cons kv kvs)
  obtain k v where kv: "kv = (k, v)" by (cases kv)
  from Cons.prems have "k \<notin> fst ` set acc"
    by (auto simp: kv)
  then have "dict_set k v acc = acc @ [(k, v)]"
    by (rule dict_set_fresh)
  moreover from Cons.prems have "distinct (map fst ((acc @ [(k, v)]) @ kvs))"
    by (simp add: kv)
  ultimately show ?case
    using Cons.IH [of "acc @ [(k, v)]"] by (simp add: kv)
qed

lemma dict_of_distinct: "distinct (map fst kvs) \<Longrightarrow> dict_of kvs = kvs"
  using fold_dict_set_distinct [of "[]" kvs] by (simp add: dict_of_def)

lemma dict_set_map_fst:
  "map fst (dict_set k v d) = (if k \<in> fst ` set d then map fst d else map fst d @ [k])"
proof (induction d)
  case Nil
  then show ?case by simp
next
  case (Cons p d)
  obtain k' v' where p: "p = (k', v')" by (cases p)
  have "k' \<in> fst ` set ((k', v') # d)" by simp
  with Cons show ?case
    by (cases "k' = k") (simp_all add: p)
qed

lemma dict_set_keys: "fst ` set (dict_set k v d) = insert k (fst ` set d)"
proof -
  have "fst ` set (dict_set k v d) = set (map fst (dict_set k v d))"
    by simp
  also have "\<dots> = insert k (fst ` set d)"
    unfolding dict_set_map_fst by auto
  finally show ?thesis .
qed

lemma dict_set_distinct: "distinct (map fst d) \<Longrightarrow> distinct (map fst (dict_set k v d))"
  unfolding dict_set_map_fst by auto

lemma dict_set_entries: "set (dict_set k v d) \<subseteq> insert (k, v) (set d)"
  by (induction d) (auto split: if_splits)

lemma fold_dict_set_keys:
  "fst ` set (fold (\<lambda>(k, v) d. dict_set k v d) kvs acc) = fst ` set acc \<union> fst ` set kvs"
  by (induction kvs arbitrary: acc) (simp_all add: dict_set_keys split_beta)

lemma fold_dict_set_keys_distinct:
  "distinct (map fst acc) \<Longrightarrow> distinct (map fst (fold (\<lambda>(k, v) d. dict_set k v d) kvs acc))"
  by (induction kvs arbitrary: acc) (simp_all add: dict_set_distinct split_beta)

lemma fold_dict_set_entries:
  "set (fold (\<lambda>(k, v) d. dict_set k v d) kvs acc) \<subseteq> set acc \<union> set kvs"
proof (induction kvs arbitrary: acc)
  case Nil
  then show ?case by simp
next
  case (Cons kv kvs)
  obtain k v where kv: "kv = (k, v)" by (cases kv)
  have "set (fold (\<lambda>(k, v) d. dict_set k v d) (kv # kvs) acc) \<subseteq>
          set (dict_set k v acc) \<union> set kvs"
    using Cons.IH [of "dict_set k v acc"] by (simp add: kv)
  also have "\<dots> \<subseteq> insert kv (set acc) \<union> set kvs"
    using dict_set_entries [of k v acc] by (auto simp: kv)
  finally show ?case by auto
qed

lemma dict_of_props:
  "fst ` set (dict_of kvs) = fst ` set kvs" "distinct (map fst (dict_of kvs))"
  "set (dict_of kvs) \<subseteq> set kvs"
  using fold_dict_set_keys [of kvs "[]"] fold_dict_set_keys_distinct [of "[]" kvs]
    fold_dict_set_entries [of kvs "[]"]
  by (simp_all add: dict_of_def)

lemma get_lineage_node_ids:
  "set ([a] @ map dst_asset_id (filter (\<lambda>e. src_asset_id e = a) (lineage_rows db)) @
        map src_asset_id (filter (\<lambda>e. dst_asset_id e = a) (lineage_rows db))) =
   spec_node_ids db a"
  by (auto simp: spec_node_ids_def)

lemma asset_to_dict_spec: "asset_to_dict = spec_node"
  by (simp add: fun_eq_iff asset_to_dict_def spec_node_def)

lemma edge_to_dict_spec: "edge_to_dict = spec_edge"
  by (simp add: fun_eq_iff edge_to_dict_def spec_edge_def)

text \<open>
  C2, as the code has it: for every asset id in the range of a signed integer of 64 bits
  and every store, \<^verbatim>\<open>get_lineage\<close> returns as edges the edges whose source is the asset
  followed by the edges whose destination is the asset, each rendered as id, source,
  target and relation. Its nodes are full records of stored assets whose id is among the
  node ids, no id occurs twice among them, and their ids are exactly the node ids that
  some stored asset has. When the asset ids of the store are distinct (\<^verbatim>\<open>id\<close> is the
  primary key of the assets table), the nodes are the records of all stored assets whose
  id is among the node ids, in table order.
\<close>

theorem get_lineage_result:
  assumes "int64 a"
  shows "\<exists>n. get_lineage db a = Inr n \<and>
           edges n =
             map spec_edge (filter (\<lambda>e. src_asset_id e = a) (lineage_rows db)) @
             map spec_edge (filter (\<lambda>e. dst_asset_id e = a) (lineage_rows db)) \<and>
           distinct (map dict_id (nodes n)) \<and>
           set (map dict_id (nodes n)) = spec_node_ids db a \<inter> asset_id ` set (assets db) \<and>
           set (nodes n) \<subseteq>
             spec_node ` {x \<in> set (assets db). asset_id x \<in> spec_node_ids db a} \<and>
           (distinct (map asset_id (assets db)) \<longrightarrow>
              nodes n =
                map spec_node (filter (\<lambda>x. asset_id x \<in> spec_node_ids db a) (assets db)))"
proof -
  let ?sel = "filter (\<lambda>x. asset_id x \<in> spec_node_ids db a) (assets db)"
  let ?kvs = "map (\<lambda>x. (asset_id x, spec_node x)) ?sel"
  let ?n = "\<lparr>nodes = map snd (dict_of ?kvs),
             edges = map spec_edge (filter (\<lambda>e. src_asset_id e = a) (lineage_rows db) @
                       filter (\<lambda>e. dst_asset_id e = a) (lineage_rows db))\<rparr>"
  have g: "get_lineage db a = Inr ?n"
    using assms
    unfolding get_lineage_def Let_def get_lineage_node_ids asset_to_dict_spec edge_to_dict_spec
    by simp
  have sub: "set (dict_of ?kvs) \<subseteq> set ?kvs"
    by (rule dict_of_props)
  then have key: "dict_id v = k" if "(k, v) \<in> set (dict_of ?kvs)" for k v
    using that by (auto simp: spec_node_def)
  then have ids: "map dict_id (nodes ?n) = map fst (dict_of ?kvs)"
    by (auto simp: comp_def)
  have 1: "distinct (map dict_id (nodes ?n))"
    unfolding ids by (rule dict_of_props)
  have "set (map fst (dict_of ?kvs)) = fst ` set ?kvs"
    using dict_of_props(1) [of ?kvs] by simp
  also have "\<dots> = spec_node_ids db a \<inter> asset_id ` set (assets db)"
    by (auto simp: image_iff)
  finally have 2: "set (map dict_id (nodes ?n)) =
      spec_node_ids db a \<inter> asset_id ` set (assets db)"
    unfolding ids .
  have 3: "set (nodes ?n) \<subseteq>
      spec_node ` {x \<in> set (assets db). asset_id x \<in> spec_node_ids db a}"
  proof
    fix v assume "v \<in> set (nodes ?n)"
    then obtain k where "(k, v) \<in> set (dict_of ?kvs)"
      by auto
    with sub have "(k, v) \<in> set ?kvs" by blast
    then show "v \<in> spec_node ` {x \<in> set (assets db). asset_id x \<in> spec_node_ids db a}"
      by auto
  qed
  have 4: "nodes ?n = map spec_node ?sel"
    if d: "distinct (map asset_id (assets db))"
  proof -
    have "map fst ?kvs = map asset_id ?sel"
      by (simp add: comp_def)
    moreover have "distinct (map asset_id ?sel)"
      using d by (rule distinct_map_filter)
    ultimately have "dict_of ?kvs = ?kvs"
      by (intro dict_of_distinct) (simp only:)
    then show ?thesis
      by (simp add: comp_def)
  qed
  have 0: "edges ?n =
     map spec_edge (filter (\<lambda>e. src_asset_id e = a) (lineage_rows db)) @
     map spec_edge (filter (\<lambda>e. dst_asset_id e = a) (lineage_rows db))"
    by simp
  show ?thesis
    by (intro exI [of _ ?n] conjI impI g 0 1 2 3 4)
qed

text \<open>
  The neighborhood of asset 2 in the seeded store: its outgoing edge 2, then its incoming
  edge 1, and the full records of the three assets.
\<close>

theorem get_lineage_result_witness:
  "int64 2 \<and> distinct (map asset_id (assets (seeded ''t0''))) \<and>
   get_lineage (seeded ''t0'') 2 =
     Inr \<lparr>nodes =
            [\<lparr>dict_id = 1, dict_name = ''Policy_Master'', dict_type = ''policy'',
              dict_description = Some ''Master policy dataset'', dict_created_at = ''t0'',
              dict_tags = [''PII'']\<rparr>,
             \<lparr>dict_id = 2, dict_name = ''Claim_Intake_2025'', dict_type = ''claim'',
              dict_description = Some ''Raw claim intake'', dict_created_at = ''t0'',
              dict_tags = []\<rparr>,
             \<lparr>dict_id = 3, dict_name = ''Reserve_Model_v1'', dict_type = ''reserve_model'',
              dict_description = Some ''Chain-ladder outputs'', dict_created_at = ''t0'',
              dict_tags = []\<rparr>],
          edges =
            [\<lparr>edge_id = 2, source = 2, target = 3, edge_relation = Some ''drives''\<rparr>,
             \<lparr>edge_id = 1, source = 1, target = 2, edge_relation = Some ''feeds''\<rparr>]\<rparr>"
proof -
  have i: "int64 2"
    by (simp add: int64_def)
  have d: "distinct (map asset_id (assets (seeded ''t0'')))"
    by (simp add: seeded_def)
  have "{e \<in> set (lineage_rows (seeded ''t0'')). src_asset_id e = 2} =
      {\<lparr>lineage_id = 2, src_asset_id = 2, dst_asset_id = 3, relation = Some ''drives''\<rparr>}"
    "{e \<in> set (lineage_rows (seeded ''t0'')). dst_asset_id e = 2} =
      {\<lparr>lineage_id = 1, src_asset_id = 1, dst_asset_id = 2, relation = Some ''feeds''\<rparr>}"
    by (auto simp: seeded_def)
  then have s: "spec_node_ids (seeded ''t0'') 2 = {1, 2, 3}"
    unfolding spec_node_ids_def by auto
  from get_lineage_result [OF i, of "seeded ''t0''"] obtain n where
    n: "get_lineage (seeded ''t0'') 2 = Inr n"
      "edges n =
         map spec_edge (filter (\<lambda>e. src_asset_id e = 2) (lineage_rows (seeded ''t0''))) @
         map spec_edge (filter (\<lambda>e. dst_asset_id e = 2) (lineage_rows (seeded ''t0'')))"
      "distinct (map asset_id (assets (seeded ''t0''))) \<longrightarrow>
         nodes n = map spec_node
           (filter (\<lambda>x. asset_id x \<in> spec_node_ids (seeded ''t0'') 2) (assets (seeded ''t0'')))"
    by blast
  from n(3) d have "nodes n = map spec_node
           (filter (\<lambda>x. asset_id x \<in> spec_node_ids (seeded ''t0'') 2) (assets (seeded ''t0'')))"
    by blast
  then have nn: "nodes n = map spec_node (assets (seeded ''t0''))"
    unfolding s by (simp add: seeded_def)
  have "n = \<lparr>nodes = nodes n, edges = edges n\<rparr>"
    by simp
  then show ?thesis
    using i d unfolding n(1) nn n(2)
    by (simp add: seeded_def spec_node_def spec_edge_def)
qed

text \<open>
  C2 as it is written fails for an asset id that is not in the range of a signed integer
  of 64 bits: the first query raises when it binds the id, and the route answers with
  status 500 and returns no neighborhood.
\<close>

theorem get_lineage_overflow_counterexample:
  "get_lineage (seeded ''t0'') (2 ^ 63) = Inl (ServerError OverflowError)"
  by (simp add: get_lineage_def int64_def)

text \<open>
  C9: every edge of a neighborhood that \<^verbatim>\<open>get_lineage\<close> returns for an asset has that
  asset as its source or as its target, in every store.
\<close>

theorem get_lineage_edges_touch:
  "get_lineage db a = Inr n \<Longrightarrow> \<forall>e \<in> set (edges n). source e = a \<or> target e = a"
  by (auto simp: get_lineage_def Let_def edge_to_dict_def split: if_splits)

theorem get_lineage_edges_touch_witness:
  "(\<exists>n. get_lineage (seeded ''t0'') 2 = Inr n \<and>
      \<lparr>edge_id = 1, source = 1, target = 2, edge_relation = Some ''feeds''\<rparr> \<in> set (edges n)) \<and>
   (source \<lparr>edge_id = 1, source = 1, target = 2, edge_relation = Some ''feeds''\<rparr> = 2 \<or>
    target \<lparr>edge_id = 1, source = 1, target = 2, edge_relation = Some ''feeds''\<rparr> = 2)"
proof -
  obtain n where g: "get_lineage (seeded ''t0'') 2 = Inr n"
    by (simp add: get_lineage_def int64_def)
  then have m: "\<lparr>edge_id = 1, source = 1, target = 2, edge_relation = Some ''feeds''\<rparr>
     \<in> set (edges n)"
    by (auto simp: get_lineage_def int64_def seeded_def edge_to_dict_def Let_def)
  from get_lineage_edges_touch [OF g] m g show ?thesis
    by blast
qed

subsection \<open>Edge creation\<close>

text \<open>
  C3, as the code has it: \<^verbatim>\<open>add_lineage\<close> answers 400 when the source id or the
  destination id is missing (absent, null or zero). When both are given and one of them
  is not in the range of a signed integer of 64 bits, its lookup raises and the answer is
  500. When both are given and in that range, the answer is 404 if one of the two assets
  is not stored. Whenever the route answers with an error the store is unchanged, so no
  edge was created.
\<close>

theorem add_lineage_failures:
  "(falsy (get (src_asset_id_field data)) \<or> falsy (get (dst_asset_id_field data)) \<longrightarrow>
      add_lineage db data = (db, Inl ValidationError)) \<and>
   (get (src_asset_id_field data) = Some s \<and> get (dst_asset_id_field data) = Some d \<and>
    s \<noteq> 0 \<and> d \<noteq> 0 \<and> (\<not> int64 s \<or> \<not> int64 d) \<longrightarrow>
      add_lineage db data = (db, Inl (ServerError OverflowError))) \<and>
   (get (src_asset_id_field data) = Some s \<and> get (dst_asset_id_field data) = Some d \<and>
    s \<noteq> 0 \<and> d \<noteq> 0 \<and> int64 s \<and> int64 d \<and>
    (find (\<lambda>x. asset_id x = s) (assets db) = None \<or>
     find (\<lambda>x. asset_id x = d) (assets db) = None) \<longrightarrow>
      add_lineage db data = (db, Inl NotFoundError)) \<and>
   (\<forall>e. snd (add_lineage db data) = Inl e \<longrightarrow> fst (add_lineage db data) = db)"
  by (auto simp: add_lineage_def query_asset_def Let_def split: option.splits if_splits)

theorem add_lineage_failures_witness:
  "add_lineage (seeded ''t0'')
     \<lparr>src_asset_id_field = Val 0, dst_asset_id_field = Val 2, relation_field = Absent\<rparr> =
     (seeded ''t0'', Inl ValidationError) \<and>
   add_lineage (seeded ''t0'')
     \<lparr>src_asset_id_field = Val 1, dst_asset_id_field = Null, relation_field = Absent\<rparr> =
     (seeded ''t0'', Inl ValidationError) \<and>
   add_lineage (seeded ''t0'')
     \<lparr>src_asset_id_field = Val 1, dst_asset_id_field = Val (2 ^ 63), relation_field = Absent\<rparr> =
     (seeded ''t0'', Inl (ServerError OverflowError)) \<and>
   add_lineage (seeded ''t0'')
     \<lparr>src_asset_id_field = Val 1, dst_asset_id_field = Val 99, relation_field = Absent\<rparr> =
     (seeded ''t0'', Inl NotFoundError) \<and>
   fst (add_lineage (seeded ''t0'')
     \<lparr>src_asset_id_field = Val 1, dst_asset_id_field = Val 99, relation_field = Absent\<rparr>) =
     seeded ''t0''"
proof -
  let ?db = "seeded ''t0''"
  let ?v1 = "\<lparr>src_asset_id_field = Val 0, dst_asset_id_field = Val 2, relation_field = Absent\<rparr>"
  let ?v2 = "\<lparr>src_asset_id_field = Val 1, dst_asset_id_field = Null, relation_field = Absent\<rparr>"
  let ?o = "\<lparr>src_asset_id_field = Val 1, dst_asset_id_field = Val (2 ^ 63),
             relation_field = Absent\<rparr>"
  let ?n = "\<lparr>src_asset_id_field = Val 1, dst_asset_id_field = Val 99, relation_field = Absent\<rparr>"
  have q: "find (\<lambda>x. asset_id x = 99) (assets ?db) = None"
    by (simp add: seeded_def)
  have 1: "add_lineage ?db ?v1 = (?db, Inl ValidationError)"
    using add_lineage_failures [of ?v1 ?db 0 2] by simp
  have 2: "add_lineage ?db ?v2 = (?db, Inl ValidationError)"
    using add_lineage_failures [of ?v2 ?db 1 0] by simp
  have 3: "add_lineage ?db ?o = (?db, Inl (ServerError OverflowError))"
    using add_lineage_failures [of ?o ?db 1 "2 ^ 63"] by (simp add: int64_def)
  have 4: "add_lineage ?db ?n = (?db, Inl NotFoundError)"
    using add_lineage_failures [of ?n ?db 1 99] q by (simp add: int64_def)
  have "snd (add_lineage ?db ?n) = Inl NotFoundError"
    by (simp add: 4)
  with add_lineage_failures [of ?n ?db 1 99] have 5: "fst (add_lineage ?db ?n) = ?db"
    by blast
  from 1 2 3 4 5 show ?thesis by blast
qed

text \<open>
  C3 as it is written fails for an id that is given but not in the range of a signed
  integer of 64 bits: no asset has that id, and the answer is 500, not 404.
\<close>

theorem add_lineage_overflow_counterexample:
  "find (\<lambda>x. asset_id x = 2 ^ 63) (assets (seeded ''t0'')) = None \<and>
   add_lineage (seeded ''t0'')
     \<lparr>src_asset_id_field = Val (2 ^ 63), dst_asset_id_field = Val 2, relation_field = Absent\<rparr> =
     (seeded ''t0'', Inl (ServerError OverflowError))"
  by (simp add: add_lineage_def query_asset_def int64_def seeded_def)

lemma fold_max_ge: "m \<le> fold max ids (m::int) \<and> (\<forall>i \<in> set ids. i \<le> fold max ids m)"
proof (induction ids arbitrary: m)
  case Nil
  then show ?case by simp
next
  case (Cons j ids)
  from Cons.IH [of "max j m"] show ?case by auto
qed

lemma next_id_fresh: "i \<in> set ids \<Longrightarrow> i < next_id ids"
  using fold_max_ge [of 0 ids] by (auto simp: next_id_def)

lemma old_rows_not_new:
  "filter (\<lambda>e. edge_id e = next_id (map lineage_id rows)) (map edge_to_dict (filter P rows)) = []"
proof -
  have "edge_id (edge_to_dict r) \<noteq> next_id (map lineage_id rows)" if "r \<in> set rows" for r
    using next_id_fresh [of "lineage_id r" "map lineage_id rows"] that
    by (simp add: edge_to_dict_def)
  then show ?thesis
    by (auto simp: filter_empty_conv)
qed

lemma query_asset_stored:
  assumes "int64 i" "i \<in> asset_id ` set (assets db)"
  shows "\<exists>x. query_asset db i = Inr (Some x)"
proof -
  from assms(2) have "find (\<lambda>x. asset_id x = i) (assets db) \<noteq> None"
    by (auto simp: find_None_iff)
  with assms(1) show ?thesis
    by (auto simp: query_asset_def)
qed

text \<open>
  C5, as the code has it: in a store whose asset ids are positive (the database assigns
  them from 1), for every pair of ids of stored assets, both in the range of a signed
  integer of 64 bits, \<^verbatim>\<open>add_lineage\<close> succeeds, and then \<^verbatim>\<open>get_lineage\<close> on either
  endpoint lists the edge with the new id exactly once when the two ids differ, and
  exactly twice when they are equal. The listed edge has the relation of the request, or
  "derives" when the request gives none or null.
\<close>

theorem add_lineage_then_get_lineage:
  assumes ex: "s \<in> asset_id ` set (assets db)" "d \<in> asset_id ` set (assets db)"
    and rng: "int64 s" "int64 d"
    and pos: "\<forall>x \<in> set (assets db). 0 < asset_id x"
    and req: "src_asset_id_field data = Val s" "dst_asset_id_field data = Val d"
  shows "\<exists>db' i ns nd. add_lineage db data = (db', Inr i) \<and>
           get_lineage db' s = Inr ns \<and> get_lineage db' d = Inr nd \<and>
           filter (\<lambda>e. edge_id e = i) (edges ns) =
             replicate (if s = d then 2 else 1)
               \<lparr>edge_id = i, source = s, target = d,
                edge_relation =
                  Some (case relation_field data of Val r \<Rightarrow> r | _ \<Rightarrow> ''derives'')\<rparr> \<and>
           filter (\<lambda>e. edge_id e = i) (edges nd) =
             replicate (if s = d then 2 else 1)
               \<lparr>edge_id = i, source = s, target = d,
                edge_relation =
                  Some (case relation_field data of Val r \<Rightarrow> r | _ \<Rightarrow> ''derives'')\<rparr>"
proof -
  let ?i = "next_id (map lineage_id (lineage_rows db))"
  let ?rel = "Some (case relation_field data of Val r \<Rightarrow> r | _ \<Rightarrow> ''derives'')"
  let ?edge = "\<lparr>lineage_id = ?i, src_asset_id = s, dst_asset_id = d, relation = ?rel\<rparr>"
  let ?db' = "db\<lparr>lineage_rows := lineage_rows db @ [?edge]\<rparr>"
  from ex pos have nz: "s \<noteq> 0" "d \<noteq> 0"
    by auto
  have rel: "Some (column_default (get_default (relation_field data) ''derives'') ''derives'') = ?rel"
    by (cases "relation_field data") simp_all
  from query_asset_stored [OF rng(1) ex(1)] query_asset_stored [OF rng(2) ex(2)]
  obtain xs xd where q: "query_asset db s = Inr (Some xs)" "query_asset db d = Inr (Some xd)"
    by blast
  with nz req have a: "add_lineage db data = (?db', Inr ?i)"
    by (simp add: add_lineage_def Let_def rel)
  have e: "edge_to_dict ?edge = \<lparr>edge_id = ?i, source = s, target = d, edge_relation = ?rel\<rparr>"
    by (simp add: edge_to_dict_def)
  have g: "\<exists>n. get_lineage ?db' x = Inr n \<and>
          filter (\<lambda>e. edge_id e = ?i) (edges n) =
          (if s = x then [edge_to_dict ?edge] else []) @ (if d = x then [edge_to_dict ?edge] else [])"
    if "int64 x" for x
    using that
    by (simp add: get_lineage_def Let_def old_rows_not_new) (simp add: edge_to_dict_def)
  from g [OF rng(1)] obtain ns where ns: "get_lineage ?db' s = Inr ns"
    "filter (\<lambda>e. edge_id e = ?i) (edges ns) =
       replicate (if s = d then 2 else 1) (edge_to_dict ?edge)"
    by (auto simp: numeral_2_eq_2)
  from g [OF rng(2)] obtain nd where nd: "get_lineage ?db' d = Inr nd"
    "filter (\<lambda>e. edge_id e = ?i) (edges nd) =
       replicate (if s = d then 2 else 1) (edge_to_dict ?edge)"
    by (auto simp: numeral_2_eq_2)
  from a ns nd show ?thesis
    unfolding e by blast
qed

text \<open>
  A new edge from asset 1 to asset 3 of the seeded store, with a null relation: it gets
  the id 3 and the relation "derives", and each endpoint lists it once.
\<close>

theorem add_lineage_then_get_lineage_witness:
  "snd (add_lineage (seeded ''t0'')
     \<lparr>src_asset_id_field = Val 1, dst_asset_id_field = Val 3, relation_field = Null\<rparr>) = Inr 3 \<and>
   (\<exists>ns nd.
      get_lineage (fst (add_lineage (seeded ''t0'')
        \<lparr>src_asset_id_field = Val 1, dst_asset_id_field = Val 3, relation_field = Null\<rparr>)) 1 =
        Inr ns \<and>
      get_lineage (fst (add_lineage (seeded ''t0'')
        \<lparr>src_asset_id_field = Val 1, dst_asset_id_field = Val 3, relation_field = Null\<rparr>)) 3 =
        Inr nd \<and>
      filter (\<lambda>e. edge_id e = 3) (edges ns) =
        [\<lparr>edge_id = 3, source = 1, target = 3, edge_relation = Some ''derives''\<rparr>] \<and>
      filter (\<lambda>e. edge_id e = 3) (edges nd) =
        [\<lparr>edge_id = 3, source = 1, target = 3, edge_relation = Some ''derives''\<rparr>])"
proof -
  let ?db = "seeded ''t0''"
  let ?r = "\<lparr>src_asset_id_field = Val 1, dst_asset_id_field = Val 3, relation_field = Null\<rparr>"
  have ex: "1 \<in> asset_id ` set (assets ?db)" "3 \<in> asset_id ` set (assets ?db)"
    by (simp_all add: seeded_def)
  have rng: "int64 1" "int64 3"
    by (simp_all add: int64_def)
  have pos: "\<forall>x \<in> set (assets ?db). 0 < asset_id x"
    by (simp add: seeded_def)
  have i: "snd (add_lineage ?db ?r) = Inr 3"
    by (simp add: add_lineage_def query_asset_def int64_def seeded_def next_id_def Let_def)
  from add_lineage_then_get_lineage [OF ex rng pos, of ?r] obtain db' j ns nd where
    "add_lineage ?db ?r = (db', Inr j)"
    "get_lineage db' 1 = Inr ns" "get_lineage db' 3 = Inr nd"
    "filter (\<lambda>e. edge_id e = j) (edges ns) =
       replicate (if (1::int) = 3 then 2 else 1)
         \<lparr>edge_id = j, source = 1, target = 3,
          edge_relation = Some (case relation_field ?r of Val r \<Rightarrow> r | _ \<Rightarrow> ''derives'')\<rparr>"
    "filter (\<lambda>e. edge_id e = j) (edges nd) =
       replicate (if (1::int) = 3 then 2 else 1)
         \<lparr>edge_id = j, source = 1, target = 3,
          edge_relation = Some (case relation_field ?r of Val r \<Rightarrow> r | _ \<Rightarrow> ''derives'')\<rparr>"
    by auto
  with i show ?thesis by simp
qed

text \<open>
  C5 as it is written fails on a self-loop: the new edge is both an outgoing and an
  incoming edge of its asset, and the edge list is the concatenation of the two.
\<close>

theorem self_loop_twice_counterexample:
  "snd (add_lineage (seeded ''t0'')
     \<lparr>src_asset_id_field = Val 1, dst_asset_id_field = Val 1, relation_field = Absent\<rparr>) = Inr 3 \<and>
   map_sum id edges (get_lineage (fst (add_lineage (seeded ''t0'')
     \<lparr>src_asset_id_field = Val 1, dst_asset_id_field = Val 1, relation_field = Absent\<rparr>)) 1) =
     Inr [\<lparr>edge_id = 1, source = 1, target = 2, edge_relation = Some ''feeds''\<rparr>,
          \<lparr>edge_id = 3, source = 1, target = 1, edge_relation = Some ''derives''\<rparr>,
          \<lparr>edge_id = 3, source = 1, target = 1, edge_relation = Some ''derives''\<rparr>]"
  by (simp add: add_lineage_def query_asset_def int64_def seeded_def next_id_def Let_def
      get_lineage_def edge_to_dict_def)

subsection \<open>Deletion\<close>

lemma delete_asset_lineage_rows: "lineage_rows (fst (delete_asset db i)) = lineage_rows db"
  by (simp add: delete_asset_def split: sum.splits option.splits)

text \<open>
  C4 says that deleting an asset invalidates every lineage edge that references it, so
  that no stored edge has the deleted asset as an endpoint. The route does not do that:
  deleting asset 1 of the seeded store succeeds, the asset is gone, and edge 1 from
  asset 1 to asset 2 is still stored and still returned by \<^verbatim>\<open>get_lineage\<close>.
\<close>

theorem delete_asset_dangling_edge:
  "snd (delete_asset (seeded ''t0'') 1) = Inr ''deleted'' \<and>
   query_asset (fst (delete_asset (seeded ''t0'') 1)) 1 = Inr None \<and>
   map edge_to_dict (lineage_rows (fst (delete_asset (seeded ''t0'') 1))) =
     [\<lparr>edge_id = 1, source = 1, target = 2, edge_relation = Some ''feeds''\<rparr>,
      \<lparr>edge_id = 2, source = 2, target = 3, edge_relation = Some ''drives''\<rparr>] \<and>
   map_sum id edges (get_lineage (fst (delete_asset (seeded ''t0'') 1)) 1) =
     Inr [\<lparr>edge_id = 1, source = 1, target = 2, edge_relation = Some ''feeds''\<rparr>]"
  by (simp add: delete_asset_def query_asset_def int64_def seeded_def get_lineage_def
      edge_to_dict_def Let_def)

end
